theory Spec2Isabelle
  imports Main "HOL-Library.AList"
begin

section \<open>JavaScript values\<close>

text \<open>
  The values an item, a property or a retry counter can hold. The universe is
  \<^verbatim>\<open>undefined\<close>, \<^verbatim>\<open>null\<close>, booleans, integer numbers and plain objects (a property
  list in insertion order). Strings, arrays, functions, fractional numbers and \<^verbatim>\<open>NaN\<close>
  as property values are left out: the queue never inspects a payload, and the
  coercions of a retry counter are then exact on every value of the type.
  An object is identified with its contents (no object identity).
\<close>

datatype jsval = Undefined | Null | Bool bool | Num int | Obj "(string \<times> jsval) list"

text \<open>Truthiness, as \<^verbatim>\<open>||\<close>, \<^verbatim>\<open>!\<close> and \<^verbatim>\<open>if\<close> read a value.\<close>

fun truthy :: "jsval \<Rightarrow> bool" where
  "truthy Undefined = False"
| "truthy Null = False"
| "truthy (Bool b) = b"
| "truthy (Num n) = (n \<noteq> 0)"
| "truthy (Obj ps) = True"

text \<open>\<^verbatim>\<open>a || b\<close>\<close>

definition js_or :: "jsval \<Rightarrow> jsval \<Rightarrow> jsval" where
  "js_or a b = (if truthy a then a else b)"

text \<open>
  \<^verbatim>\<open>v[k]\<close> on a value other than \<^verbatim>\<open>null\<close> and \<^verbatim>\<open>undefined\<close> (on those the read raises
  a TypeError, which every caller below checks first): a missing property and
  every property of a primitive read as \<^verbatim>\<open>undefined\<close>.
\<close>

fun get_prop :: "jsval \<Rightarrow> string \<Rightarrow> jsval" where
  "get_prop (Obj ps) k = (case map_of ps k of Some v \<Rightarrow> v | None \<Rightarrow> Undefined)"
| "get_prop v k = Undefined"

text \<open>The own enumerable properties that \<^verbatim>\<open>{...v}\<close> copies; none for a primitive.\<close>

fun own_props :: "jsval \<Rightarrow> (string \<times> jsval) list" where
  "own_props (Obj ps) = ps"
| "own_props v = []"

text \<open>
  \<^verbatim>\<open>item[k] = v\<close> on an object: the property keeps its place when it exists and is
  added last otherwise. (On \<^verbatim>\<open>null\<close>, \<^verbatim>\<open>undefined\<close> and, in strict code, on a primitive
  the assignment raises a TypeError; the callers below check that first.)
\<close>

definition set_prop :: "jsval \<Rightarrow> string \<Rightarrow> jsval \<Rightarrow> jsval" where
  "set_prop item k v = Obj (AList.update k v (own_props item))"

text \<open>
  \<^verbatim>\<open>ToNumber\<close>; \<open>None\<close> is \<^verbatim>\<open>NaN\<close> (a plain object converts through
  \<^verbatim>\<open>"[object Object]"\<close>).
\<close>

fun to_number :: "jsval \<Rightarrow> int option" where
  "to_number Undefined = None"
| "to_number Null = Some 0"
| "to_number (Bool b) = Some (if b then 1 else 0)"
| "to_number (Num n) = Some n"
| "to_number (Obj ps) = None"

text \<open>
  What \<^verbatim>\<open>JSON.parse(JSON.stringify(v))\<close> gives back for a value of this universe:
  a property holding \<^verbatim>\<open>undefined\<close> is not written, and \<^verbatim>\<open>undefined\<close> as an array
  element is written as \<^verbatim>\<open>null\<close>.
\<close>

fun json_norm :: "jsval \<Rightarrow> jsval" where
  "json_norm (Obj ps) =
     Obj (map (\<lambda>p. (fst p, json_norm (snd p))) (filter (\<lambda>p. snd p \<noteq> Undefined) ps))"
| "json_norm Undefined = Null"
| "json_norm v = v"

section \<open>The queue and its environment\<close>

text \<open>
  What a handler call does before it returns: it raises, or it returns a value or a
  promise. Whether that promise is kept is known later (\<open>settle\<close> below).
\<close>

datatype hres = Throws | Returns

datatype js_error = TypeError string | Error string | HandlerFault

text \<open>
  How a call ends. A function declared \<^verbatim>\<open>async\<close> never raises to its caller: an error
  in its body rejects the promise it returns (\<open>Reject\<close>). A plain function raises
  (\<open>Throw\<close>). \<open>Normal\<close> is a return, or a promise that is not rejected.
\<close>

datatype completion = Normal | Throw js_error | Reject js_error

text \<open>
  The snapshot file as \<^verbatim>\<open>loadData\<close> sees it: reading or \<^verbatim>\<open>JSON.parse\<close> raises
  (\<open>Malformed\<close>), the text is a JSON array (\<open>JsonArray\<close>, with its elements), or it is
  any other JSON value (\<open>JsonOther\<close>, on which \<^verbatim>\<open>parsed.map\<close> is not a function).
\<close>

datatype snapshot = Malformed | JsonArray "jsval list" | JsonOther

text \<open>What the queue does to the outside, in order, each with the clock's time.\<close>

datatype origin = Listener | Loop

datatype action =
    HandlerCall origin jsval
  | WebhookCall jsval "jsval option"
  | SetTimeout nat jsval
  | MaxRetriesExceeded jsval
  | SaveError
  | WebhookError
  | ListenerError
  | Emit string jsval

text \<open>
  The fields of \<^verbatim>\<open>SimpleQueue\<close>, then the parts of the environment its methods read
  and write: the \<^verbatim>\<open>itemAdded\<close> listener that \<^verbatim>\<open>registerHandler\<close> installs on the
  emitter and how many promises of its calls are not settled yet, the locals
  \<^verbatim>\<open>item\<close> and \<^verbatim>\<open>retries\<close> of a \<^verbatim>\<open>processQueue\<close> call suspended at its \<^verbatim>\<open>await\<close> (on the
  handler's promise or on \<^verbatim>\<open>triggerWebhook\<close>), the pending \<^verbatim>\<open>setTimeout\<close> callbacks
  with their due times, the clock, the snapshot file, whether a write to it succeeds,
  and the trace. The directory, the file name and the UUID decide nothing and are
  left out.
\<close>

datatype pending = AwaitHandler jsval jsval | AwaitWebhook jsval jsval

record queue =
  name :: string
  data :: "jsval list"
  handler :: "(jsval \<Rightarrow> hres) option"
  webhookUrl :: "string option"
  webhookMethod :: string
  webhookApiKey :: "string option"
  persistenceInterval :: nat
  persistenceTimer :: "nat option"
  maxSize :: nat
  discardedItems :: "jsval list"
  processing :: bool
  listener :: "(jsval \<Rightarrow> hres) option"
  listenerPending :: nat
  inflight :: "pending option"
  timers :: "(nat \<times> jsval) list"
  now :: nat
  disk :: "snapshot option"
  disk_ok :: bool
  trace :: "(nat \<times> action) list"

definition MAX_RETRIES :: int where
  "MAX_RETRIES = 5"

definition log :: "action \<Rightarrow> queue \<Rightarrow> queue" where
  "log a q = q\<lparr>trace := trace q @ [(now q, a)]\<rparr>"

text \<open>\<^verbatim>\<open>this.webhookUrl\<close> in a condition: \<^verbatim>\<open>null\<close> and the empty string are falsy.\<close>

definition url_set :: "queue \<Rightarrow> bool" where
  "url_set q = (case webhookUrl q of None \<Rightarrow> False | Some u \<Rightarrow> u \<noteq> [])"

subsection \<open>Persistence\<close>

text \<open>
  \<^verbatim>\<open>items.map(item => ({ ...item, _retries: item._retries || 0 }))\<close>, used by both
  \<^verbatim>\<open>saveData\<close> and \<^verbatim>\<open>loadData\<close>. Reading \<^verbatim>\<open>_retries\<close> of \<^verbatim>\<open>null\<close> or \<^verbatim>\<open>undefined\<close>
  raises (\<open>None\<close>), which both callers catch.
\<close>

definition with_retries :: "jsval \<Rightarrow> jsval" where
  "with_retries item =
     Obj (AList.update ''_retries'' (js_or (get_prop item ''_retries'') (Num 0)) (own_props item))"

definition serializable :: "jsval list \<Rightarrow> jsval list option" where
  "serializable items =
     (if Null \<in> set items \<or> Undefined \<in> set items then None else Some (map with_retries items))"

definition saveData :: "queue \<Rightarrow> queue" where
  "saveData q =
     (case serializable (data q) of
        None \<Rightarrow> log SaveError q
      | Some xs \<Rightarrow>
          if disk_ok q then q\<lparr>disk := Some (JsonArray (map json_norm xs))\<rparr>
          else log SaveError q)"

definition loadData :: "queue \<Rightarrow> queue" where
  "loadData q =
     (case disk q of
        None \<Rightarrow> q\<lparr>data := []\<rparr>
      | Some Malformed \<Rightarrow> q\<lparr>data := []\<rparr>
      | Some JsonOther \<Rightarrow> q\<lparr>data := []\<rparr>
      | Some (JsonArray parsed) \<Rightarrow>
          (case serializable parsed of
             None \<Rightarrow> q\<lparr>data := []\<rparr>
           | Some xs \<Rightarrow>
               if maxSize q > 0 \<and> length xs > maxSize q
               then q\<lparr>data := take (maxSize q) xs\<rparr>
               else q\<lparr>data := xs\<rparr>))"

subsection \<open>The processing loop\<close>

text \<open>\<^verbatim>\<open>getItem(shift)\<close>: the head, removed when \<open>shift\<close>; \<^verbatim>\<open>undefined\<close> on an empty buffer.\<close>

definition getItem :: "bool \<Rightarrow> queue \<Rightarrow> jsval \<times> queue" where
  "getItem shift q =
     (case data q of
        [] \<Rightarrow> (Undefined, q)
      | item # rest \<Rightarrow> (item, if shift then q\<lparr>data := rest\<rparr> else q))"

definition getLength :: "queue \<Rightarrow> nat" where
  "getLength q = length (data q)"

text \<open>
  The delay \<^verbatim>\<open>setTimeout\<close> uses for \<^verbatim>\<open>Math.pow(2, retries) * 100\<close>: a fractional delay
  (negative counter) is truncated, and a delay below 1 is 1.
\<close>

definition backoff :: "int \<Rightarrow> nat" where
  "backoff r = (if 0 \<le> r then 2 ^ nat r * 100 else max 1 (100 div 2 ^ nat (- r)))"

text \<open>
  The failure branch, the same code after \<^verbatim>\<open>!success\<close> and in \<^verbatim>\<open>catch\<close>: with
  \<^verbatim>\<open>retries < MAX_RETRIES\<close> the counter of the item is set to \<^verbatim>\<open>retries + 1\<close> and a timer
  is started, otherwise the item is only reported. The comparison and the sum work on
  the number \<^verbatim>\<open>retries\<close> converts to; \<^verbatim>\<open>NaN < 5\<close> is false.
\<close>

definition on_failure :: "jsval \<Rightarrow> jsval \<Rightarrow> queue \<Rightarrow> queue" where
  "on_failure item retries q =
     (case to_number retries of
        Some r \<Rightarrow>
          if r < MAX_RETRIES then
            (let item' = set_prop item ''_retries'' (Num (r + 1));
                 delay = backoff r
             in log (SetTimeout delay item') (q\<lparr>timers := timers q @ [(now q + delay, item')]\<rparr>))
          else log (MaxRetriesExceeded item) q
      | None \<Rightarrow> log (MaxRetriesExceeded item) q)"

text \<open>
  \<^verbatim>\<open>triggerWebhook\<close> up to its \<^verbatim>\<open>await axios(config)\<close>: the request carries the item
  without \<^verbatim>\<open>_retries\<close> as body for POST and no body otherwise.
\<close>

definition webhook_body :: "queue \<Rightarrow> jsval \<Rightarrow> jsval option" where
  "webhook_body q item =
     (if webhookMethod q = ''POST''
      then Some (json_norm (Obj (AList.delete ''_retries'' (own_props item))))
      else None)"

text \<open>
  The \<^verbatim>\<open>while\<close> loop of \<^verbatim>\<open>processQueue\<close>, from its test to the next \<^verbatim>\<open>await\<close> that
  suspends it or to its end. A handler that raises is caught at once and the loop goes
  on; a handler that returns and a webhook request suspend the loop with \<open>inflight\<close>
  set. Reading \<^verbatim>\<open>item._retries\<close> of \<^verbatim>\<open>null\<close> or \<^verbatim>\<open>undefined\<close> is outside the \<^verbatim>\<open>try\<close>:
  the call ends there and \<open>processing\<close> stays set.
\<close>

function run_loop :: "queue \<Rightarrow> queue" where
  "run_loop q =
     (case data q of
        [] \<Rightarrow> q\<lparr>processing := False\<rparr>
      | item # rest \<Rightarrow>
          (let q1 = q\<lparr>data := rest\<rparr> in
           if item = Null \<or> item = Undefined then q1
           else
             (let retries = js_or (get_prop item ''_retries'') (Num 0) in
              case handler q1 of
                Some h \<Rightarrow>
                  (case h item of
                     Throws \<Rightarrow>
                       run_loop (on_failure item retries (log (HandlerCall Loop item) q1))
                   | Returns \<Rightarrow>
                       (log (HandlerCall Loop item) q1)
                         \<lparr>inflight := Some (AwaitHandler item retries)\<rparr>)
              | None \<Rightarrow>
                  if url_set q1
                  then (log (WebhookCall item (webhook_body q1 item)) q1)
                         \<lparr>inflight := Some (AwaitWebhook item retries)\<rparr>
                  else run_loop q1)))"
  by pat_completeness auto
termination
  by (relation "measure (\<lambda>q. length (data q))")
     (auto simp: on_failure_def log_def Let_def split: option.splits)

text \<open>
  \<^verbatim>\<open>processQueue()\<close> up to its first suspension: nothing while a call is already
  running, nothing taken when no sink is configured.
\<close>

definition processQueue :: "queue \<Rightarrow> queue" where
  "processQueue q =
     (if processing q then q
      else
        (let q1 = q\<lparr>processing := True\<rparr> in
         if handler q1 = None \<and> \<not> url_set q1 then q1\<lparr>processing := False\<rparr>
         else run_loop q1))"

text \<open>
  The suspended loop resumes: the awaited promise is fulfilled (\<open>ok\<close>; for a webhook,
  \<^verbatim>\<open>triggerWebhook\<close> gave \<^verbatim>\<open>true\<close>) or not (the handler's promise is rejected; the
  request failed, which \<^verbatim>\<open>triggerWebhook\<close> reports and turns into \<^verbatim>\<open>false\<close>). Nothing
  happens when no call is suspended.
\<close>

definition settle :: "bool \<Rightarrow> queue \<Rightarrow> queue" where
  "settle ok q =
     (case inflight q of
        None \<Rightarrow> q
      | Some (AwaitHandler item retries) \<Rightarrow>
          (let q1 = q\<lparr>inflight := None\<rparr> in
           if ok then run_loop q1 else run_loop (on_failure item retries q1))
      | Some (AwaitWebhook item retries) \<Rightarrow>
          (let q1 = q\<lparr>inflight := None\<rparr> in
           if ok then run_loop q1
           else run_loop (on_failure item retries (log WebhookError q1))))"

text \<open>
  The timer that fires next: the earliest due, the one started first among equals.
  Returned with the timers that stay.
\<close>

fun pick :: "(nat \<times> jsval) list \<Rightarrow> ((nat \<times> jsval) \<times> (nat \<times> jsval) list) option" where
  "pick [] = None"
| "pick (t # ts) =
     (case pick ts of
        None \<Rightarrow> Some (t, [])
      | Some (u, rest) \<Rightarrow> if fst t \<le> fst u then Some (t, ts) else Some (u, t # rest))"

text \<open>
  A retry timer fires, not before it is due:
  \<^verbatim>\<open>() => { this.data.unshift(item); this.processQueue(); }\<close>
\<close>

definition fire :: "queue \<Rightarrow> queue" where
  "fire q =
     (case pick (timers q) of
        None \<Rightarrow> q
      | Some ((due, item), rest) \<Rightarrow>
          processQueue (q\<lparr>timers := rest, now := max (now q) due, data := item # data q\<rparr>))"

subsection \<open>The public operations\<close>

text \<open>
  \<^verbatim>\<open>emit('itemAdded', item)\<close>: the listener of \<^verbatim>\<open>registerHandler\<close> calls the handler. When
  the handler raises, the error leaves the listener and \<^verbatim>\<open>emit\<close>; when it returns, a
  rejection of its promise is reported later (\<open>listener_settle\<close>). Subscribers from
  outside the queue are not modelled.
\<close>

definition emit_itemAdded :: "jsval \<Rightarrow> queue \<Rightarrow> completion \<times> queue" where
  "emit_itemAdded item q =
     (let q1 = log (Emit ''itemAdded'' item) q in
      case listener q1 of
        None \<Rightarrow> (Normal, q1)
      | Some h \<Rightarrow>
          (let q2 = log (HandlerCall Listener item) q1 in
           case h item of
             Throws \<Rightarrow> (Throw HandlerFault, q2)
           | Returns \<Rightarrow> (Normal, q2\<lparr>listenerPending := listenerPending q2 + 1\<rparr>)))"

definition listener_settle :: "bool \<Rightarrow> queue \<Rightarrow> queue" where
  "listener_settle ok q =
     (if listenerPending q = 0 then q
      else (if ok then q else log ListenerError q)\<lparr>listenerPending := listenerPending q - 1\<rparr>)"

text \<open>
  \<^verbatim>\<open>async addItem(item)\<close>. The method is in a class body, which is strict code: setting
  \<^verbatim>\<open>_retries\<close> on \<^verbatim>\<open>null\<close>, a boolean or a number raises a TypeError.
\<close>

definition addItem :: "jsval \<Rightarrow> queue \<Rightarrow> completion \<times> queue" where
  "addItem item q =
     (if item = Undefined then (Reject (TypeError ''Cannot add undefined to the queue.''), q)
      else if maxSize q > 0 \<and> length (data q) \<ge> maxSize q
      then (Normal, (log (Emit ''discarded'' item) q)\<lparr>discardedItems := discardedItems q @ [item]\<rparr>)
      else
        (case item of
           Obj ps \<Rightarrow>
             (let item' = set_prop item ''_retries'' (Num 0);
                  q1 = q\<lparr>data := data q @ [item']\<rparr>
              in case emit_itemAdded item' q1 of
                   (Normal, q2) \<Rightarrow> (Normal, processQueue (saveData q2))
                 | (Throw e, q2) \<Rightarrow> (Reject e, q2)
                 | (Reject e, q2) \<Rightarrow> (Reject e, q2))
         | _ \<Rightarrow> (Reject (TypeError ''Cannot set property _retries''), q)))"

text \<open>
  \<^verbatim>\<open>registerHandler(handler)\<close>, a plain function; \<open>None\<close> is an argument that is not a
  function.
\<close>

definition registerHandler :: "(jsval \<Rightarrow> hres) option \<Rightarrow> queue \<Rightarrow> completion \<times> queue" where
  "registerHandler h q =
     (case h of
        None \<Rightarrow> (Throw (TypeError ''Handler must be a function.''), q)
      | Some f \<Rightarrow>
          if url_set q
          then (Throw (Error ''Cannot register a handler when a webhook is already registered.''), q)
          else (Normal,
                processQueue (q\<lparr>handler := Some f, webhookUrl := None, webhookApiKey := None,
                                 listener := Some f\<rparr>)))"

text \<open>\<^verbatim>\<open>String.prototype.toUpperCase\<close> on ASCII text.\<close>

definition upper_char :: "char \<Rightarrow> char" where
  "upper_char c =
     (if 97 \<le> (of_char c :: nat) \<and> (of_char c :: nat) \<le> 122
      then char_of ((of_char c :: nat) - 32) else c)"

definition toUpperCase :: "string \<Rightarrow> string" where
  "toUpperCase s = map upper_char s"

text \<open>
  The \<^verbatim>\<open>method\<close> argument: left out (the default \<^verbatim>\<open>'POST'\<close> applies), a string, or a
  value with no \<^verbatim>\<open>toUpperCase\<close>, on which the call raises a TypeError.
\<close>

datatype method_arg = Omitted | Method string | NotAString

text \<open>
  \<^verbatim>\<open>async registerWebhook(url, apiKey, method = 'POST')\<close>; \<open>None\<close> for \<open>url\<close> or \<open>apiKey\<close>
  is an argument that is not a string.
\<close>

definition registerWebhook ::
  "string option \<Rightarrow> string option \<Rightarrow> method_arg \<Rightarrow> queue \<Rightarrow> completion \<times> queue" where
  "registerWebhook url apiKey method q =
     (if url = None \<or> apiKey = None
      then (Reject (TypeError ''Webhook URL and API key must be strings.''), q)
      else
        (case method of
           NotAString \<Rightarrow> (Reject (TypeError ''method.toUpperCase is not a function''), q)
         | _ \<Rightarrow>
             (let m = toUpperCase (case method of Method s \<Rightarrow> s | _ \<Rightarrow> ''POST'') in
              if m \<noteq> ''GET'' \<and> m \<noteq> ''POST''
              then (Reject (TypeError ''Invalid HTTP method.''), q)
              else if handler q \<noteq> None
              then (Reject (Error ''Cannot register a webhook when a handler is already registered.''), q)
              else (Normal,
                    processQueue (q\<lparr>webhookUrl := url, webhookMethod := m,
                                     webhookApiKey := apiKey, handler := None\<rparr>)))))"

definition drain :: "queue \<Rightarrow> queue" where
  "drain q = (saveData (q\<lparr>data := []\<rparr>))\<lparr>persistenceTimer := None\<rparr>"

definition toArray :: "queue \<Rightarrow> jsval list" where
  "toArray q = data q"

definition stopPersistence :: "queue \<Rightarrow> queue" where
  "stopPersistence q = q\<lparr>persistenceTimer := None\<rparr>"

definition destroy :: "queue \<Rightarrow> queue" where
  "destroy q = (stopPersistence q)\<lparr>listener := None, data := []\<rparr>"

definition getMaxSize :: "queue \<Rightarrow> nat" where
  "getMaxSize q = maxSize q"

definition getDiscardedItems :: "queue \<Rightarrow> jsval list" where
  "getDiscardedItems q = discardedItems q"

text \<open>The callback of the \<^verbatim>\<open>setInterval\<close> timer, while the timer is active.\<close>

definition tick :: "queue \<Rightarrow> queue" where
  "tick q = (case persistenceTimer q of None \<Rightarrow> q | Some i \<Rightarrow> saveData q)"

text \<open>
  \<^verbatim>\<open>createQueue(name, persistenceInterval, persistenceDirectory, maxSize)\<close> with a name,
  an interval and a size of the right JavaScript types, at a given time and with a
  given snapshot file: the constructor's checks, then \<^verbatim>\<open>initializePersistence\<close>.
\<close>

definition createQueue ::
  "string \<Rightarrow> int \<Rightarrow> int \<Rightarrow> nat \<Rightarrow> snapshot option \<Rightarrow> bool \<Rightarrow> js_error + queue" where
  "createQueue nm interval cap t file writable =
     (if nm = [] then Inl (Error ''Queue name must be a non-empty string.'')
      else if interval < 0 then Inl (TypeError ''Persistence interval must be a non-negative number.'')
      else if cap < 0 then Inl (TypeError ''Max size must be a non-negative number.'')
      else
        (let q = loadData
                   \<lparr>name = nm, data = [], handler = None, webhookUrl = None,
                    webhookMethod = ''POST'', webhookApiKey = None,
                    persistenceInterval = nat interval, persistenceTimer = None,
                    maxSize = nat cap, discardedItems = [], processing = False,
                    listener = None, listenerPending = 0, inflight = None, timers = [],
                    now = t, disk = file, disk_ok = writable, trace = []\<rparr>
         in Inr (if persistenceInterval q > 0
                 then q\<lparr>persistenceTimer := Some (persistenceInterval q)\<rparr> else q)))"

subsection \<open>Runs\<close>

text \<open>
  What can happen to a queue, one event after another: a call of a public operation,
  the settling of the awaited delivery, a retry timer firing, time passing, the
  persistence timer firing, the settling of a promise of the listener.
\<close>

datatype event =
    AddItem jsval
  | TakeItem bool
  | RegisterHandler "(jsval \<Rightarrow> hres) option"
  | RegisterWebhook "string option" "string option" method_arg
  | Drain
  | Destroy
  | Settle bool
  | Fire
  | Elapse nat
  | Tick
  | ListenerSettle bool

fun step :: "event \<Rightarrow> queue \<Rightarrow> queue" where
  "step (AddItem item) q = snd (addItem item q)"
| "step (TakeItem shift) q = snd (getItem shift q)"
| "step (RegisterHandler h) q = snd (registerHandler h q)"
| "step (RegisterWebhook url apiKey method) q = snd (registerWebhook url apiKey method q)"
| "step Drain q = drain q"
| "step Destroy q = destroy q"
| "step (Settle ok) q = settle ok q"
| "step Fire q = fire q"
| "step (Elapse d) q = q\<lparr>now := now q + d\<rparr>"
| "step Tick q = tick q"
| "step (ListenerSettle ok) q = listener_settle ok q"

fun run :: "event list \<Rightarrow> queue \<Rightarrow> queue" where
  "run [] q = q"
| "run (e # es) q = run es (step e q)"

subsection \<open>Notions used by the properties\<close>

text \<open>An item that \<^verbatim>\<open>addItem\<close> can put in the buffer: an object.\<close>

fun is_object :: "jsval \<Rightarrow> bool" where
  "is_object (Obj ps) = True"
| "is_object v = False"

text \<open>The item as the buffer holds it after \<^verbatim>\<open>item._retries = 0\<close>.\<close>

definition accepted :: "jsval \<Rightarrow> jsval" where
  "accepted item = set_prop item ''_retries'' (Num 0)"

text \<open>\<open>n\<close> calls of \<^verbatim>\<open>getItem()\<close> in a row, with what they return.\<close>

fun getItems :: "nat \<Rightarrow> queue \<Rightarrow> jsval list \<times> queue" where
  "getItems 0 q = ([], q)"
| "getItems (Suc n) q =
     (case getItem True q of (x, q1) \<Rightarrow> (case getItems n q1 of (xs, q2) \<Rightarrow> (x # xs, q2)))"

text \<open>No handler and no webhook are registered.\<close>

definition no_sink :: "queue \<Rightarrow> bool" where
  "no_sink q = (handler q = None \<and> listener q = None \<and> \<not> url_set q)"

text \<open>The test of \<^verbatim>\<open>addItem\<close> that sends an item to the discard list.\<close>

definition is_full :: "queue \<Rightarrow> bool" where
  "is_full q = (maxSize q > 0 \<and> length (data q) \<ge> maxSize q)"

text \<open>
  The queue that \<^verbatim>\<open>createQueue('q', 0, 'queues', k)\<close> returns at time 0 when no snapshot
  file exists (\<open>createQueue_fresh\<close> below).
\<close>

definition fresh :: "nat \<Rightarrow> queue" where
  "fresh k =
     \<lparr>name = ''q'', data = [], handler = None, webhookUrl = None,
      webhookMethod = ''POST'', webhookApiKey = None,
      persistenceInterval = 0, persistenceTimer = None,
      maxSize = k, discardedItems = [], processing = False,
      listener = None, listenerPending = 0, inflight = None, timers = [],
      now = 0, disk = None, disk_ok = True, trace = []\<rparr>"

text \<open>
  A queue with a handler that returns, and one with a webhook, both registered on a
  fresh queue (\<open>with_handler_eq\<close>, \<open>with_webhook_eq\<close> below).
\<close>

definition with_handler :: queue where
  "with_handler = snd (registerHandler (Some (\<lambda>item. Returns)) (fresh 0))"

definition with_webhook :: "nat \<Rightarrow> queue" where
  "with_webhook k = snd (registerWebhook (Some ''http://sink'') (Some ''key'') Omitted (fresh k))"

text \<open>A value that \<^verbatim>\<open>JSON.stringify\<close> writes in full: no \<^verbatim>\<open>undefined\<close> inside.\<close>

fun json_clean :: "jsval \<Rightarrow> bool" where
  "json_clean Undefined = False"
| "json_clean (Obj ps) = list_all (\<lambda>p. json_clean (snd p)) ps"
| "json_clean v = True"

text \<open>An object that \<^verbatim>\<open>JSON.stringify\<close> writes in full.\<close>

definition json_object :: "jsval \<Rightarrow> bool" where
  "json_object item = (is_object item \<and> json_clean item)"





text \<open>
  A run on a queue with \<open>maxSize = 1\<close> and a webhook: \<^verbatim>\<open>{id:1}\<close> is submitted and its
  request fails, so a retry timer is started; \<^verbatim>\<open>{id:2}\<close> is submitted and its request
  is still pending when \<^verbatim>\<open>{id:3}\<close> is submitted and when the timer fires.
\<close>

definition over_capacity :: queue where
  "over_capacity =
     run [AddItem (Obj [(''id'', Num 1)]), Settle False,
          AddItem (Obj [(''id'', Num 2)]), AddItem (Obj [(''id'', Num 3)]), Fire]
       (with_webhook 1)"

text \<open>
  The deliveries the processing loop has started, read off the trace: the calls of the
  handler made by the loop and the webhook requests, each with its time and the item as
  it was then. The calls the \<^verbatim>\<open>itemAdded\<close> listener makes are not among them.
\<close>

fun attempts :: "(nat \<times> action) list \<Rightarrow> (nat \<times> jsval) list" where
  "attempts [] = []"
| "attempts ((t, HandlerCall Loop item) # tr) = (t, item) # attempts tr"
| "attempts ((t, WebhookCall item body) # tr) = (t, item) # attempts tr"
| "attempts (e # tr) = attempts tr"

text \<open>The retry timers started, each with its time and its delay.\<close>

fun timeouts :: "(nat \<times> action) list \<Rightarrow> (nat \<times> nat) list" where
  "timeouts [] = []"
| "timeouts ((t, SetTimeout d item) # tr) = (t, d) # timeouts tr"
| "timeouts (e # tr) = timeouts tr"

text \<open>The test of \<^verbatim>\<open>processQueue\<close> for a sink: a handler or a webhook is registered.\<close>

definition has_sink :: "queue \<Rightarrow> bool" where
  "has_sink q = (handler q \<noteq> None \<or> url_set q)"

text \<open>The events that are no call of a public operation.\<close>

fun internal :: "event \<Rightarrow> bool" where
  "internal (Settle ok) = True"
| "internal Fire = True"
| "internal (Elapse d) = True"
| "internal Tick = True"
| "internal (ListenerSettle ok) = True"
| "internal e = False"

text \<open>
  The items the loop has delivered so far, in order, and those delivered between two
  states of a run.
\<close>

definition attempted :: "queue \<Rightarrow> jsval list" where
  "attempted q = map snd (attempts (trace q))"



text \<open>A queue with a handler that raises, registered on a fresh queue.\<close>

definition with_throwing_handler :: queue where
  "with_throwing_handler = snd (registerHandler (Some (\<lambda>item. Throws)) (fresh 0))"


section \<open>Basic facts\<close>

declare run_loop.simps [simp del]

lemma createQueue_fresh: "createQueue ''q'' 0 (int k) 0 None True = Inr (fresh k)"
  by (simp add: createQueue_def loadData_def fresh_def)

lemma saveData_fields [simp]:
  "data (saveData q) = data q" "handler (saveData q) = handler q"
  "listener (saveData q) = listener q" "webhookUrl (saveData q) = webhookUrl q"
  "maxSize (saveData q) = maxSize q" "discardedItems (saveData q) = discardedItems q"
  "processing (saveData q) = processing q" "inflight (saveData q) = inflight q"
  "timers (saveData q) = timers q" "now (saveData q) = now q"
  "persistenceTimer (saveData q) = persistenceTimer q"
  "listenerPending (saveData q) = listenerPending q"
  "webhookMethod (saveData q) = webhookMethod q"
  by (simp_all add: saveData_def log_def split: option.splits)

lemma url_set_saveData [simp]: "url_set (saveData q) = url_set q"
  by (simp add: url_set_def)

lemma processQueue_no_sink:
  "handler q = None \<Longrightarrow> \<not> url_set q \<Longrightarrow> processQueue q = q"
  by (simp add: processQueue_def url_set_def)

lemma run_loop_Nil: "data q = [] \<Longrightarrow> run_loop q = q\<lparr>processing := False\<rparr>"
  by (simp add: run_loop.simps)

lemma processQueue_empty: "data q = [] \<Longrightarrow> \<not> processing q \<Longrightarrow> processQueue q = q"
  by (simp add: processQueue_def run_loop_Nil Let_def url_set_def)

lemma with_handler_eq:
  "with_handler = (fresh 0)\<lparr>handler := Some (\<lambda>item. Returns), listener := Some (\<lambda>item. Returns)\<rparr>"
  by (simp add: with_handler_def registerHandler_def fresh_def url_set_def processQueue_empty)

lemma toUpperCase_POST [simp]: "toUpperCase ''POST'' = ''POST''"
  by (simp add: toUpperCase_def upper_char_def)

lemma with_webhook_eq:
  "with_webhook k = (fresh k)\<lparr>webhookUrl := Some ''http://sink'', webhookApiKey := Some ''key''\<rparr>"
  by (simp add: with_webhook_def registerWebhook_def fresh_def processQueue_empty)

lemmas eval_defs =
  fresh_def addItem_def emit_itemAdded_def
  log_def set_prop_def Let_def processQueue_def url_set_def run_loop.simps js_or_def
  settle_def on_failure_def MAX_RETRIES_def backoff_def fire_def webhook_body_def
  saveData_def serializable_def with_retries_def

lemma with_throwing_handler_eq:
  "with_throwing_handler
     = (fresh 0)\<lparr>handler := Some (\<lambda>item. Throws), listener := Some (\<lambda>item. Throws)\<rparr>"
  by (simp add: with_throwing_handler_def registerHandler_def fresh_def url_set_def
      processQueue_empty)

section \<open>First in, first out\<close>

lemma addItem_no_sink_obj:
  assumes "no_sink q" "maxSize q = 0"
  shows "data (snd (addItem (Obj ps) q)) = data q @ [accepted (Obj ps)]"
    and "no_sink (snd (addItem (Obj ps) q))"
    and "maxSize (snd (addItem (Obj ps) q)) = 0"
  using assms
  by (simp_all add: addItem_def emit_itemAdded_def log_def no_sink_def accepted_def
      processQueue_no_sink url_set_def Let_def)

lemma addItem_rejected:
  assumes "\<not> is_object v" "maxSize q = 0"
  shows "snd (addItem v q) = q"
  using assms by (cases v) (simp_all add: addItem_def)

lemma run_addItems_no_sink:
  assumes "no_sink q" "maxSize q = 0"
  shows "data (run (map AddItem items) q) = data q @ map accepted (filter is_object items)"
  using assms
proof (induction items arbitrary: q)
  case Nil
  then show ?case by simp
next
  case (Cons v items)
  show ?case
  proof (cases v)
    case (Obj ps)
    with Cons.prems Cons.IH [of "snd (addItem (Obj ps) q)"] show ?thesis
      by (simp add: addItem_no_sink_obj)
  qed (use Cons in \<open>simp_all add: addItem_rejected\<close>)
qed

lemma getItems_all: "fst (getItems (length (data q)) q) = data q"
proof (induction "data q" arbitrary: q)
  case Nil
  then show ?case by simp
next
  case (Cons x xs)
  from Cons.hyps(2) have d: "data q = x # xs" by simp
  have "fst (getItems (length xs) (q\<lparr>data := xs\<rparr>)) = xs"
    using Cons.hyps(1) [of "q\<lparr>data := xs\<rparr>"] by simp
  then show ?case
    by (auto simp: d getItem_def split: prod.splits)
qed

text \<open>
  C1. On a queue with no sink and \<open>maxSize = 0\<close>, submit any values with \<^verbatim>\<open>addItem\<close>, one
  after another. Those that are objects are accepted (the others are refused with
  an error and change nothing, see C10). As many calls of \<^verbatim>\<open>getItem()\<close> as the buffer
  has items then return what the buffer held before, followed by the accepted items
  in the order of their submission, each as \<^verbatim>\<open>addItem\<close> left it (with \<^verbatim>\<open>_retries\<close> 0).
  When every submitted value is an object and the buffer was empty, the \<open>N\<close> calls
  return the \<open>N\<close> items in submission order.
\<close>

theorem fifo_order:
  assumes "no_sink q" "maxSize q = 0"
  shows "fst (getItems (length (data q) + length (filter is_object items))
               (run (map AddItem items) q))
         = data q @ map accepted (filter is_object items)"
proof -
  let ?q' = "run (map AddItem items) q"
  have "data ?q' = data q @ map accepted (filter is_object items)"
    using assms by (rule run_addItems_no_sink)
  moreover have "fst (getItems (length (data ?q')) ?q') = data ?q'"
    by (rule getItems_all)
  ultimately show ?thesis by simp
qed

theorem fifo_order_witness:
  "no_sink (fresh 0) \<and> maxSize (fresh 0) = 0 \<and>
   fst (getItems 3
         (run (map AddItem [Obj [(''id'', Num 1)], Null, Obj [(''id'', Num 2)], Obj []])
            (fresh 0)))
     = [Obj [(''id'', Num 1), (''_retries'', Num 0)],
        Obj [(''id'', Num 2), (''_retries'', Num 0)],
        Obj [(''_retries'', Num 0)]]"
  using fifo_order [of "fresh 0" "[Obj [(''id'', Num 1)], Null, Obj [(''id'', Num 2)], Obj []]"]
  by (simp add: no_sink_def fresh_def url_set_def accepted_def set_prop_def eval_nat_numeral)

section \<open>Submitting \<^verbatim>\<open>null\<close> and \<^verbatim>\<open>undefined\<close>\<close>

text \<open>
  C10. \<^verbatim>\<open>addItem(null)\<close> passes the test for \<^verbatim>\<open>undefined\<close>. On a full queue the \<^verbatim>\<open>null\<close>
  is appended to the discard list (after the \<^verbatim>\<open>discarded\<close> notification) and the call
  ends without an error. On a queue that is not full the call ends with a TypeError
  (the promise of the \<^verbatim>\<open>async\<close> method is rejected) and the queue, its buffer and
  discard list included, is what it was. \<^verbatim>\<open>addItem(undefined)\<close> is refused by the
  first test, on every queue.
\<close>

theorem addItem_null:
  "(if is_full q
    then addItem Null q =
           (Normal, (log (Emit ''discarded'' Null) q)\<lparr>discardedItems := discardedItems q @ [Null]\<rparr>)
    else addItem Null q = (Reject (TypeError ''Cannot set property _retries''), q))
   \<and> addItem Undefined q = (Reject (TypeError ''Cannot add undefined to the queue.''), q)"
  by (simp add: addItem_def is_full_def)

theorem addItem_null_witness:
  "\<not> is_full (fresh 1) \<and>
   addItem Null (fresh 1) = (Reject (TypeError ''Cannot set property _retries''), fresh 1) \<and>
   is_full ((fresh 1)\<lparr>data := [Obj [(''_retries'', Num 0)]]\<rparr>) \<and>
   fst (addItem Null ((fresh 1)\<lparr>data := [Obj [(''_retries'', Num 0)]]\<rparr>)) = Normal \<and>
   discardedItems (snd (addItem Null ((fresh 1)\<lparr>data := [Obj [(''_retries'', Num 0)]]\<rparr>))) = [Null] \<and>
   data (snd (addItem Null ((fresh 1)\<lparr>data := [Obj [(''_retries'', Num 0)]]\<rparr>)))
     = [Obj [(''_retries'', Num 0)]]"
  using addItem_null [of "fresh 1"]
    addItem_null [of "(fresh 1)\<lparr>data := [Obj [(''_retries'', Num 0)]]\<rparr>"]
  by (simp add: is_full_def fresh_def log_def)

section \<open>Overflow\<close>

lemma addItem_room_fields:
  assumes "no_sink q" "length (data q) < maxSize q"
  shows "data (snd (addItem (Obj ps) q)) = data q @ [accepted (Obj ps)]"
    and "no_sink (snd (addItem (Obj ps) q))"
    and "maxSize (snd (addItem (Obj ps) q)) = maxSize q"
    and "discardedItems (snd (addItem (Obj ps) q)) = discardedItems q"
  using assms
  by (simp_all add: addItem_def emit_itemAdded_def log_def no_sink_def accepted_def
      processQueue_no_sink url_set_def Let_def)

lemma addItem_full_fields:
  assumes "is_full q" "v \<noteq> Undefined"
  shows "data (snd (addItem v q)) = data q"
    and "discardedItems (snd (addItem v q)) = discardedItems q @ [v]"
  using assms by (simp_all add: addItem_def is_full_def log_def)

lemma run_addItems_room:
  assumes "no_sink q" "length (data q) + length items \<le> maxSize q" "\<forall>v\<in>set items. is_object v"
  shows "data (run (map AddItem items) q) = data q @ map accepted items
       \<and> discardedItems (run (map AddItem items) q) = discardedItems q
       \<and> no_sink (run (map AddItem items) q)
       \<and> maxSize (run (map AddItem items) q) = maxSize q"
  using assms
proof (induction items arbitrary: q)
  case Nil
  then show ?case by simp
next
  case (Cons v items)
  from Cons.prems obtain ps where v: "v = Obj ps" by (cases v) auto
  have room: "length (data q) < maxSize q" using Cons.prems by simp
  let ?q1 = "snd (addItem (Obj ps) q)"
  note f = addItem_room_fields [OF Cons.prems(1) room, of ps]
  have "length (data ?q1) + length items \<le> maxSize ?q1"
    using Cons.prems f by simp
  with Cons.IH [of ?q1] Cons.prems f show ?case
    by (simp add: v)
qed

lemma run_append: "run (es @ fs) q = run fs (run es q)"
  by (induction es arbitrary: q) simp_all

text \<open>
  C5. A queue with no sink, an empty buffer and \<open>maxSize = k > 0\<close> receives \<open>k + 1\<close>
  objects. The buffer then holds the first \<open>k\<close> of them, in order (each with
  \<^verbatim>\<open>_retries\<close> 0, as \<^verbatim>\<open>addItem\<close> leaves an accepted item), so its length is \<open>k\<close> and no
  earlier item was evicted; the discard list has grown by exactly the last item,
  untouched. \<^verbatim>\<open>getItem()\<close> returns the first item and leaves \<open>k - 1\<close>; when \<open>k \<ge> 2\<close>,
  \<^verbatim>\<open>getItem(false)\<close> then returns the second and still leaves \<open>k - 1\<close>. The witness is
  the scenario with \<open>maxSize = 2\<close> and \<^verbatim>\<open>{id:1}\<close>, \<^verbatim>\<open>{id:2}\<close>, \<^verbatim>\<open>{id:3}\<close>.
\<close>

theorem overflow_discards_newest:
  assumes "no_sink q" "data q = []" "maxSize q = k" "0 < k"
    and "length items = Suc k" "\<forall>v\<in>set items. is_object v"
  shows "let q' = run (map AddItem items) q in
           data q' = map accepted (take k items)
         \<and> getLength q' = k
         \<and> discardedItems q' = discardedItems q @ [items ! k]
         \<and> fst (getItem True q') = accepted (items ! 0)
         \<and> getLength (snd (getItem True q')) = k - 1
         \<and> (2 \<le> k \<longrightarrow>
              fst (getItem False (snd (getItem True q'))) = accepted (items ! 1)
              \<and> getLength (snd (getItem False (snd (getItem True q')))) = k - 1)"
proof -
  define q' where "q' = run (map AddItem items) q"
  have items: "items = take k items @ [items ! k]"
    using assms(5) by (metis lessI take_Suc_conv_app_nth take_all order_refl)
  let ?q1 = "run (map AddItem (take k items)) q"
  have "\<forall>v\<in>set (take k items). is_object v"
    using assms(6) by (meson in_set_takeD)
  then have r: "data ?q1 = map accepted (take k items)" "discardedItems ?q1 = discardedItems q"
      "maxSize ?q1 = k"
    using run_addItems_room [of q "take k items"] assms by simp_all
  have full: "is_full ?q1"
    using r assms by (simp add: is_full_def)
  have obj: "items ! k \<noteq> Undefined"
    using assms(5,6) by (metis is_object.simps(2) lessI nth_mem)
  have q': "q' = snd (addItem (items ! k) ?q1)"
    unfolding q'_def by (subst items) (simp add: run_append)
  have d: "data q' = map accepted (take k items)"
    using addItem_full_fields(1) [OF full obj] r q' by simp
  have len: "getLength q' = k"
    using d assms(5) by (simp add: getLength_def)
  have disc: "discardedItems q' = discardedItems q @ [items ! k]"
    using addItem_full_fields(2) [OF full obj] r q' by simp
  obtain x xs where xs: "take k items = x # xs" "x = items ! 0" "length xs = k - 1"
    using assms(4,5) by (cases items; cases k) auto
  have first: "fst (getItem True q') = accepted (items ! 0)"
    using d xs by (simp add: getItem_def)
  have len1: "getLength (snd (getItem True q')) = k - 1"
    using d xs by (simp add: getItem_def getLength_def)
  have second: "fst (getItem False (snd (getItem True q'))) = accepted (items ! 1)
                 \<and> getLength (snd (getItem False (snd (getItem True q')))) = k - 1"
    if k2: "2 \<le> k"
  proof -
    from k2 obtain y ys where y: "xs = y # ys"
      using xs(3) by (cases xs) auto
    have "take k items ! 1 = items ! 1"
      using k2 by simp
    then have ys: "y = items ! 1"
      using xs(1) y by simp
    show ?thesis
      using d xs y ys by (simp add: getItem_def getLength_def)
  qed
  show ?thesis
    unfolding Let_def q'_def [symmetric]
    using d len disc first len1 second by blast
qed

theorem overflow_discards_newest_witness:
  "no_sink (fresh 2) \<and> data (fresh 2) = [] \<and> maxSize (fresh 2) = 2 \<and>
   (let q' = run [AddItem (Obj [(''id'', Num 1)]), AddItem (Obj [(''id'', Num 2)]),
                  AddItem (Obj [(''id'', Num 3)])] (fresh 2) in
      getLength q' = 2
    \<and> discardedItems q' = [Obj [(''id'', Num 3)]]
    \<and> fst (getItem True q') = Obj [(''id'', Num 1), (''_retries'', Num 0)]
    \<and> getLength (snd (getItem True q')) = 1
    \<and> fst (getItem False (snd (getItem True q'))) = Obj [(''id'', Num 2), (''_retries'', Num 0)]
    \<and> getLength (snd (getItem False (snd (getItem True q')))) = 1)"
  using overflow_discards_newest [of "fresh 2" 2
      "[Obj [(''id'', Num 1)], Obj [(''id'', Num 2)], Obj [(''id'', Num 3)]]"]
  by (simp add: no_sink_def fresh_def url_set_def accepted_def set_prop_def Let_def)

section \<open>Drain\<close>

text \<open>
  C8. On every queue, \<^verbatim>\<open>drain()\<close> empties the buffer (length 0), leaves the discard
  list as it is and cancels the persistence timer, whose callback does nothing from
  then on. It saves the empty buffer:
  the snapshot file then holds \<^verbatim>\<open>[]\<close>, unless the write fails, which \<^verbatim>\<open>saveData\<close>
  only reports. On an empty buffer the call ends the same way and the buffer stays
  empty.
\<close>

theorem drain_empties:
  "data (drain q) = [] \<and> getLength (drain q) = 0
   \<and> discardedItems (drain q) = discardedItems q
   \<and> persistenceTimer (drain q) = None
   \<and> tick (drain q) = drain q
   \<and> disk (drain q) = (if disk_ok q then Some (JsonArray []) else disk q)
   \<and> (data q = [] \<longrightarrow> data (drain q) = data q \<and> getLength (drain q) = 0)"
  by (simp add: drain_def saveData_def serializable_def getLength_def log_def tick_def)

theorem drain_empties_witness:
  "data ((fresh 2)\<lparr>persistenceTimer := Some 5\<rparr>) = []
   \<and> drain ((fresh 2)\<lparr>persistenceTimer := Some 5\<rparr>) = (fresh 2)\<lparr>disk := Some (JsonArray [])\<rparr>
   \<and> getLength (drain ((fresh 2)\<lparr>persistenceTimer := Some 5\<rparr>)) = 0
   \<and> data (drain ((fresh 2)\<lparr>data := [Obj [(''_retries'', Num 0)]], discardedItems := [Null]\<rparr>)) = []
   \<and> discardedItems (drain ((fresh 2)\<lparr>data := [Obj [(''_retries'', Num 0)]], discardedItems := [Null]\<rparr>))
       = [Null]"
  using drain_empties [of "(fresh 2)\<lparr>persistenceTimer := Some 5\<rparr>"]
    drain_empties [of "(fresh 2)\<lparr>data := [Obj [(''_retries'', Num 0)]], discardedItems := [Null]\<rparr>"]
  by (simp add: fresh_def drain_def saveData_def serializable_def getLength_def)

section \<open>One sink at a time\<close>

text \<open>
  C6, as the code has it. With a handler registered, \<^verbatim>\<open>registerWebhook\<close> fails whatever
  its arguments are, and with a webhook registered (a \<^verbatim>\<open>webhookUrl\<close> that is not empty)
  \<^verbatim>\<open>registerHandler\<close> fails whatever its argument is; the queue is what it was, the
  registered sink included. \<^verbatim>\<open>registerHandler\<close> raises its error to the caller.
  \<^verbatim>\<open>registerWebhook\<close> is declared \<^verbatim>\<open>async\<close>: its error rejects the promise it returns and
  nothing is raised to the caller.
\<close>

theorem registration_exclusive:
  "(handler q \<noteq> None \<longrightarrow> (\<exists>e. registerWebhook url apiKey method q = (Reject e, q)))
   \<and> (url_set q \<longrightarrow> (\<exists>e. registerHandler h q = (Throw e, q)))"
  by (auto simp: registerWebhook_def registerHandler_def Let_def split: method_arg.splits option.splits)

theorem registration_exclusive_witness:
  "handler with_handler \<noteq> None
   \<and> registerWebhook (Some ''http://sink'') (Some ''key'') Omitted with_handler
       = (Reject (Error ''Cannot register a webhook when a handler is already registered.''),
          with_handler)
   \<and> url_set (with_webhook 0)
   \<and> registerHandler (Some (\<lambda>item. Returns)) (with_webhook 0)
       = (Throw (Error ''Cannot register a handler when a webhook is already registered.''),
          with_webhook 0)"
  using registration_exclusive [of with_handler "Some ''http://sink''" "Some ''key''" Omitted]
    registration_exclusive [of "with_webhook 0" _ _ _ "Some (\<lambda>item. Returns)"]
  by (simp add: with_handler_eq with_webhook_eq registerWebhook_def registerHandler_def
      url_set_def fresh_def)

text \<open>
  The claim has both errors raised synchronously. For \<^verbatim>\<open>registerWebhook\<close> on a queue
  with a handler the call ends with a rejected promise, not with a raised error.
\<close>

theorem registerWebhook_rejects_not_throws:
  "handler with_handler \<noteq> None
   \<and> fst (registerWebhook (Some ''http://sink'') (Some ''key'') Omitted with_handler)
       = Reject (Error ''Cannot register a webhook when a handler is already registered.'')
   \<and> fst (registerWebhook (Some ''http://sink'') (Some ''key'') Omitted with_handler)
       \<noteq> Throw (Error ''Cannot register a webhook when a handler is already registered.'')"
  by (simp add: with_handler_eq registerWebhook_def fresh_def)

section \<open>Saving and loading\<close>

lemma json_norm_clean: "json_clean v \<Longrightarrow> json_norm v = v"
proof (induction v)
  case (Obj ps)
  have "filter (\<lambda>p. snd p \<noteq> Undefined) ps = ps"
    using Obj.prems by (auto simp: list_all_iff filter_id_conv)
  moreover have "map (\<lambda>p. (fst p, json_norm (snd p))) ps = ps"
  proof (rule map_idI)
    fix p assume p: "p \<in> set ps"
    then have "json_clean (snd p)" using Obj.prems by (simp add: list_all_iff)
    moreover have "snd p \<in> Basic_BNFs.snds p" by (cases p) simp
    ultimately have "json_norm (snd p) = snd p" using Obj.IH p by blast
    then show "(fst p, json_norm (snd p)) = p" by simp
  qed
  ultimately show ?case by simp
qed simp_all

lemma list_all_update:
  "list_all P ps \<Longrightarrow> P (k, v) \<Longrightarrow> list_all P (AList.update k v ps)"
  by (induction ps) auto

lemma json_clean_js_or:
  "json_object item \<Longrightarrow> json_clean (js_or (get_prop item ''_retries'') (Num 0))"
proof (cases item)
  case (Obj ps)
  assume "json_object item"
  then have all: "list_all (\<lambda>p. json_clean (snd p)) ps"
    using Obj by (simp add: json_object_def)
  show ?thesis
  proof (cases "map_of ps ''_retries''")
    case None
    then show ?thesis using Obj by (simp add: js_or_def)
  next
    case (Some c)
    then have "(''_retries'', c) \<in> set ps" by (rule map_of_SomeD)
    with all have "json_clean c" by (auto simp: list_all_iff)
    then show ?thesis using Obj Some by (simp add: js_or_def)
  qed
qed (simp_all add: json_object_def)

lemma with_retries_clean: "json_object item \<Longrightarrow> json_norm (with_retries item) = with_retries item"
proof -
  assume a: "json_object item"
  then have "list_all (\<lambda>p. json_clean (snd p)) (own_props item)"
    by (cases item) (simp_all add: json_object_def)
  then have "json_clean (with_retries item)"
    using json_clean_js_or [OF a] by (simp add: with_retries_def list_all_update)
  then show ?thesis by (rule json_norm_clean)
qed

lemma with_retries_idem: "with_retries (with_retries item) = with_retries item"
proof -
  let ?c = "js_or (get_prop item ''_retries'') (Num 0)"
  have "js_or ?c (Num 0) = ?c" by (simp add: js_or_def)
  then show ?thesis
    by (simp add: with_retries_def update_conv')
qed


lemma serializable_objects:
  "\<forall>item\<in>set items. is_object item \<Longrightarrow> serializable items = Some (map with_retries items)"
  by (auto simp: serializable_def)

lemma saveData_objects:
  assumes "disk_ok q" "\<forall>item\<in>set (data q). json_object item"
  shows "saveData q = q\<lparr>disk := Some (JsonArray (map with_retries (data q)))\<rparr>"
proof -
  have "map json_norm (map with_retries (data q)) = map with_retries (data q)"
    using assms(2) by (simp add: with_retries_clean)
  moreover have "serializable (data q) = Some (map with_retries (data q))"
    using assms(2) by (simp add: serializable_objects json_object_def)
  ultimately show ?thesis
    using assms(1) by (simp add: saveData_def)
qed

lemma loadData_written:
  "loadData (q\<lparr>disk := Some (JsonArray (map with_retries items))\<rparr>)
   = q\<lparr>disk := Some (JsonArray (map with_retries items)),
       data := (if maxSize q > 0 \<and> length items > maxSize q
                then take (maxSize q) (map with_retries items)
                else map with_retries items)\<rparr>"
proof -
  have "serializable (map with_retries items) = Some (map with_retries items)"
    by (auto simp: serializable_def with_retries_idem) (simp_all add: with_retries_def)
  then show ?thesis
    by (simp add: loadData_def)
qed


text \<open>
  What \<^verbatim>\<open>loadData\<close> gives back after \<^verbatim>\<open>saveData\<close> on any buffer of objects that JSON writes
  in full, whatever its length.
\<close>

lemma round_trip_any_length:
  assumes "disk_ok q" "\<forall>item\<in>set (data q). json_object item"
  shows "data (loadData (saveData q))
         = (if maxSize q > 0 \<and> length (data q) > maxSize q
            then take (maxSize q) (map with_retries (data q))
            else map with_retries (data q))"
  using assms by (simp add: saveData_objects loadData_written)






section \<open>The loop, step by step\<close>

lemma attempts_append [simp]: "attempts (xs @ ys) = attempts xs @ attempts ys"
  by (induction xs rule: attempts.induct) simp_all

lemma timeouts_append [simp]: "timeouts (xs @ ys) = timeouts xs @ timeouts ys"
  by (induction xs rule: timeouts.induct) simp_all

lemma log_fields [simp]:
  "data (log a q) = data q" "handler (log a q) = handler q"
  "listener (log a q) = listener q" "webhookUrl (log a q) = webhookUrl q"
  "maxSize (log a q) = maxSize q" "discardedItems (log a q) = discardedItems q"
  "processing (log a q) = processing q" "inflight (log a q) = inflight q"
  "timers (log a q) = timers q" "now (log a q) = now q"
  "persistenceTimer (log a q) = persistenceTimer q"
  "listenerPending (log a q) = listenerPending q"
  "webhookMethod (log a q) = webhookMethod q"
  "disk (log a q) = disk q" "disk_ok (log a q) = disk_ok q"
  "trace (log a q) = trace q @ [(now q, a)]"
  by (simp_all add: log_def)

lemma on_failure_fields [simp]:
  "data (on_failure item r q) = data q" "handler (on_failure item r q) = handler q"
  "listener (on_failure item r q) = listener q" "webhookUrl (on_failure item r q) = webhookUrl q"
  "maxSize (on_failure item r q) = maxSize q"
  "discardedItems (on_failure item r q) = discardedItems q"
  "processing (on_failure item r q) = processing q" "inflight (on_failure item r q) = inflight q"
  "now (on_failure item r q) = now q"
  "persistenceTimer (on_failure item r q) = persistenceTimer q"
  "listenerPending (on_failure item r q) = listenerPending q"
  "webhookMethod (on_failure item r q) = webhookMethod q"
  "disk (on_failure item r q) = disk q" "disk_ok (on_failure item r q) = disk_ok q"
  "attempts (trace (on_failure item r q)) = attempts (trace q)"
  by (simp_all add: on_failure_def Let_def split: option.splits)

lemma url_set_cong [simp]:
  "url_set (log a q) = url_set q" "url_set (on_failure item r q) = url_set q"
  "url_set (q\<lparr>data := d\<rparr>) = url_set q" "url_set (q\<lparr>processing := b\<rparr>) = url_set q"
  "url_set (q\<lparr>inflight := i\<rparr>) = url_set q" "url_set (q\<lparr>timers := ts\<rparr>) = url_set q"
  "url_set (q\<lparr>now := t\<rparr>) = url_set q"
  by (simp_all add: url_set_def)

lemma run_loop_Cons:
  "data q = item # rest \<Longrightarrow>
   run_loop q =
     (let q1 = q\<lparr>data := rest\<rparr> in
      if item = Null \<or> item = Undefined then q1
      else
        (let retries = js_or (get_prop item ''_retries'') (Num 0) in
         case handler q1 of
           Some h \<Rightarrow>
             (case h item of
                Throws \<Rightarrow> run_loop (on_failure item retries (log (HandlerCall Loop item) q1))
              | Returns \<Rightarrow>
                  (log (HandlerCall Loop item) q1)\<lparr>inflight := Some (AwaitHandler item retries)\<rparr>)
         | None \<Rightarrow>
             if url_set q1
             then (log (WebhookCall item (webhook_body q1 item)) q1)
                    \<lparr>inflight := Some (AwaitWebhook item retries)\<rparr>
             else run_loop q1))"
  by (subst run_loop.simps) simp

lemma run_loop_Crash:
  "data q = item # rest \<Longrightarrow> item = Null \<or> item = Undefined \<Longrightarrow>
   run_loop q = q\<lparr>data := rest\<rparr>"
  by (simp add: run_loop_Cons Let_def)

lemma run_loop_Throws:
  "data q = item # rest \<Longrightarrow> item \<noteq> Null \<Longrightarrow> item \<noteq> Undefined \<Longrightarrow>
   handler q = Some h \<Longrightarrow> h item = Throws \<Longrightarrow>
   run_loop q =
     run_loop (on_failure item (js_or (get_prop item ''_retries'') (Num 0))
                 (log (HandlerCall Loop item) (q\<lparr>data := rest\<rparr>)))"
  by (simp add: run_loop_Cons Let_def)

lemma run_loop_Returns:
  "data q = item # rest \<Longrightarrow> item \<noteq> Null \<Longrightarrow> item \<noteq> Undefined \<Longrightarrow>
   handler q = Some h \<Longrightarrow> h item = Returns \<Longrightarrow>
   run_loop q =
     (log (HandlerCall Loop item) (q\<lparr>data := rest\<rparr>))
       \<lparr>inflight := Some (AwaitHandler item (js_or (get_prop item ''_retries'') (Num 0)))\<rparr>"
  by (simp add: run_loop_Cons Let_def)

lemma run_loop_Webhook:
  "data q = item # rest \<Longrightarrow> item \<noteq> Null \<Longrightarrow> item \<noteq> Undefined \<Longrightarrow>
   handler q = None \<Longrightarrow> url_set q \<Longrightarrow>
   run_loop q =
     (log (WebhookCall item (webhook_body (q\<lparr>data := rest\<rparr>) item)) (q\<lparr>data := rest\<rparr>))
       \<lparr>inflight := Some (AwaitWebhook item (js_or (get_prop item ''_retries'') (Num 0)))\<rparr>"
  by (simp add: run_loop_Cons Let_def)

lemma run_loop_Skip:
  "data q = item # rest \<Longrightarrow> item \<noteq> Null \<Longrightarrow> item \<noteq> Undefined \<Longrightarrow>
   handler q = None \<Longrightarrow> \<not> url_set q \<Longrightarrow>
   run_loop q = run_loop (q\<lparr>data := rest\<rparr>)"
  by (simp add: run_loop_Cons Let_def)

text \<open>Induction along the loop, one case for each way an iteration goes.\<close>

lemma run_loop_cases [case_names Empty Crash Throws Returns Webhook Skip]:
  assumes "\<And>q. data q = [] \<Longrightarrow> P q"
    and "\<And>q item rest. data q = item # rest \<Longrightarrow> item = Null \<or> item = Undefined \<Longrightarrow> P q"
    and "\<And>q item rest h.
           data q = item # rest \<Longrightarrow> item \<noteq> Null \<Longrightarrow> item \<noteq> Undefined \<Longrightarrow>
           handler q = Some h \<Longrightarrow> h item = Throws \<Longrightarrow>
           P (on_failure item (js_or (get_prop item ''_retries'') (Num 0))
                (log (HandlerCall Loop item) (q\<lparr>data := rest\<rparr>))) \<Longrightarrow>
           P q"
    and "\<And>q item rest h.
           data q = item # rest \<Longrightarrow> item \<noteq> Null \<Longrightarrow> item \<noteq> Undefined \<Longrightarrow>
           handler q = Some h \<Longrightarrow> h item = Returns \<Longrightarrow> P q"
    and "\<And>q item rest.
           data q = item # rest \<Longrightarrow> item \<noteq> Null \<Longrightarrow> item \<noteq> Undefined \<Longrightarrow>
           handler q = None \<Longrightarrow> url_set q \<Longrightarrow> P q"
    and "\<And>q item rest.
           data q = item # rest \<Longrightarrow> item \<noteq> Null \<Longrightarrow> item \<noteq> Undefined \<Longrightarrow>
           handler q = None \<Longrightarrow> \<not> url_set q \<Longrightarrow> P (q\<lparr>data := rest\<rparr>) \<Longrightarrow> P q"
  shows "P q"
proof (induction q rule: run_loop.induct)
  case (1 q)
  show ?case
  proof (cases "data q")
    case Nil
    then show ?thesis by (rule assms(1))
  next
    case (Cons item rest)
    show ?thesis
    proof (cases "item = Null \<or> item = Undefined")
      case True
      with Cons show ?thesis by (rule assms(2))
    next
      case False
      then have nn: "item \<noteq> Null" "item \<noteq> Undefined" by simp_all
      show ?thesis
      proof (cases "handler q")
        case None
        show ?thesis
        proof (cases "url_set q")
          case True
          with Cons nn None show ?thesis by (rule assms(5))
        next
          case nurl: False
          have "P (q\<lparr>data := rest\<rparr>)"
            using "1.IH"(1) [of item rest "q\<lparr>data := rest\<rparr>"
                "js_or (get_prop item ''_retries'') (Num 0)"] Cons False None nurl
            by simp
          with Cons nn None nurl show ?thesis by (rule assms(6))
        qed
      next
        case (Some h)
        show ?thesis
        proof (cases "h item")
          case Throws
          have "P (on_failure item (js_or (get_prop item ''_retries'') (Num 0))
                (log (HandlerCall Loop item) (q\<lparr>data := rest\<rparr>)))"
            using "1.IH"(2) [of item rest "q\<lparr>data := rest\<rparr>"
                "js_or (get_prop item ''_retries'') (Num 0)" h] Cons False Some Throws
            by simp
          with Cons nn Some Throws show ?thesis by (rule assms(3))
        next
          case Returns
          with Cons nn Some show ?thesis by (rule assms(4))
        qed
      qed
    qed
  qed
qed

text \<open>The loop only takes from the head of the buffer; sinks, capacity and discards stay.\<close>

lemma run_loop_frame:
  "maxSize (run_loop q) = maxSize q \<and> handler (run_loop q) = handler q
   \<and> webhookUrl (run_loop q) = webhookUrl q \<and> discardedItems (run_loop q) = discardedItems q
   \<and> now (run_loop q) = now q \<and> listener (run_loop q) = listener q
   \<and> (\<exists>k. data (run_loop q) = drop k (data q))"
proof (induction q rule: run_loop_cases)
  case (Empty q)
  then show ?case by (simp add: run_loop_Nil)
next
  case (Crash q item rest)
  have "rest = drop 1 (data q)" using Crash by simp
  then have "\<exists>k. rest = drop k (data q)" ..
  then show ?case using Crash by (simp add: run_loop_Crash)
next
  case (Throws q item rest h)
  let ?q1 = "on_failure item (js_or (get_prop item ''_retries'') (Num 0))
        (log (HandlerCall Loop item) (q\<lparr>data := rest\<rparr>))"
  from Throws.IH obtain k where "data (run_loop ?q1) = drop k rest"
    by auto
  then have "data (run_loop ?q1) = drop (Suc k) (data q)"
    using Throws.hyps by simp
  then have "\<exists>k. data (run_loop ?q1) = drop k (data q)" ..
  then show ?case using Throws by (simp add: run_loop_Throws)
next
  case (Returns q item rest h)
  have "rest = drop 1 (data q)" using Returns by simp
  then have "\<exists>k. rest = drop k (data q)" ..
  then show ?case using Returns by (simp add: run_loop_Returns)
next
  case (Webhook q item rest)
  have "rest = drop 1 (data q)" using Webhook by simp
  then have "\<exists>k. rest = drop k (data q)" ..
  then show ?case using Webhook by (simp add: run_loop_Webhook)
next
  case (Skip q item rest)
  from Skip.IH obtain k where "data (run_loop (q\<lparr>data := rest\<rparr>)) = drop k rest"
    by auto
  then have "data (run_loop (q\<lparr>data := rest\<rparr>)) = drop (Suc k) (data q)"
    using Skip.hyps by simp
  then have "\<exists>k. data (run_loop (q\<lparr>data := rest\<rparr>)) = drop k (data q)" ..
  then show ?case using Skip by (simp add: run_loop_Skip)
qed


section \<open>The capacity bound\<close>

lemma processQueue_frame:
  "maxSize (processQueue q) = maxSize q \<and> handler (processQueue q) = handler q
   \<and> webhookUrl (processQueue q) = webhookUrl q
   \<and> discardedItems (processQueue q) = discardedItems q
   \<and> now (processQueue q) = now q \<and> listener (processQueue q) = listener q
   \<and> (\<exists>k. data (processQueue q) = drop k (data q))"
proof -
  have "\<exists>k. data q = drop k (data q)" by (rule exI [of _ 0]) simp
  then show ?thesis
    using run_loop_frame [of "q\<lparr>processing := True\<rparr>"]
    by (simp add: processQueue_def Let_def)
qed

lemma processQueue_length:
  "length (data (processQueue q)) \<le> length (data q)" "maxSize (processQueue q) = maxSize q"
  using processQueue_frame [of q] by auto

lemma emit_itemAdded_fields [simp]:
  "data (snd (emit_itemAdded item q)) = data q"
  "maxSize (snd (emit_itemAdded item q)) = maxSize q"
  "discardedItems (snd (emit_itemAdded item q)) = discardedItems q"
  by (simp_all add: emit_itemAdded_def Let_def split: option.splits hres.splits)

text \<open>\<^verbatim>\<open>addItem\<close> keeps a bounded buffer within its bound.\<close>

lemma addItem_keeps_bound:
  assumes "0 < maxSize q" "length (data q) \<le> maxSize q"
  shows "length (data (snd (addItem v q))) \<le> maxSize q \<and> maxSize (snd (addItem v q)) = maxSize q"
proof (cases "v = Undefined \<or> is_full q \<or> \<not> is_object v")
  case True
  then show ?thesis using assms
    by (cases v) (auto simp: addItem_def is_full_def)
next
  case False
  then obtain ps where v: "v = Obj ps" by (cases v) auto
  from False assms have room: "length (data q) < maxSize q"
    by (auto simp: is_full_def)
  define q1 where "q1 = q\<lparr>data := data q @ [set_prop v ''_retries'' (Num 0)]\<rparr>"
  obtain c q2 where e: "emit_itemAdded (set_prop v ''_retries'' (Num 0)) q1 = (c, q2)"
    by (cases "emit_itemAdded (set_prop v ''_retries'' (Num 0)) q1")
  have "q2 = snd (emit_itemAdded (set_prop v ''_retries'' (Num 0)) q1)"
    using e by simp
  then have q2: "length (data q2) \<le> maxSize q" "maxSize q2 = maxSize q"
    using room by (simp_all add: q1_def)
  have "length (data (processQueue (saveData q2))) \<le> maxSize q"
    using processQueue_length(1) [of "saveData q2"] q2 by simp
  moreover have "maxSize (processQueue (saveData q2)) = maxSize q"
    using processQueue_length(2) [of "saveData q2"] q2 by simp
  ultimately show ?thesis
    using room e q2 unfolding v q1_def
    by (cases c) (simp_all add: addItem_def Let_def)
qed

text \<open>\<^verbatim>\<open>loadData\<close> sets a buffer within the bound.\<close>

lemma loadData_within_bound:
  "0 < maxSize q \<Longrightarrow> length (data (loadData q)) \<le> maxSize q \<and> maxSize (loadData q) = maxSize q"
  by (simp add: loadData_def split: option.splits snapshot.splits)

lemma over_capacity_data:
  "data over_capacity
     = [Obj [(''id'', Num 1), (''_retries'', Num 1)], Obj [(''id'', Num 3), (''_retries'', Num 0)]]"
  "maxSize over_capacity = 1" "disk_ok over_capacity"
  by (simp_all add: over_capacity_def with_webhook_eq eval_defs)

text \<open>
  C3 on the code. \<^verbatim>\<open>addItem\<close> and \<^verbatim>\<open>loadData\<close> keep the buffer within \<open>maxSize\<close>
  (\<open>addItem_keeps_bound\<close>, \<open>loadData_within_bound\<close>). The callback of a retry timer
  does \<^verbatim>\<open>this.data.unshift(item)\<close> with no test. In the run \<open>over_capacity\<close>, on a queue
  with \<open>maxSize = 1\<close>, the buffer holds one item before the timer fires and two after.
\<close>

theorem reinsertion_exceeds_maxSize:
  "maxSize (with_webhook 1) = 1
   \<and> getLength (run [AddItem (Obj [(''id'', Num 1)]), Settle False,
                      AddItem (Obj [(''id'', Num 2)]), AddItem (Obj [(''id'', Num 3)])]
                 (with_webhook 1)) = 1
   \<and> maxSize over_capacity = 1
   \<and> getLength over_capacity = 2"
proof -
  have "getLength (run [AddItem (Obj [(''id'', Num 1)]), Settle False,
                      AddItem (Obj [(''id'', Num 2)]), AddItem (Obj [(''id'', Num 3)])]
                 (with_webhook 1)) = 1"
    by (simp add: getLength_def with_webhook_eq fresh_def addItem_def emit_itemAdded_def
      log_def set_prop_def Let_def processQueue_def url_set_def run_loop.simps js_or_def
      settle_def on_failure_def MAX_RETRIES_def backoff_def webhook_body_def
      saveData_def serializable_def with_retries_def)
  then show ?thesis
    by (simp add: over_capacity_data getLength_def with_webhook_eq fresh_def)
qed


section \<open>The retry ceiling\<close>

lemma get_prop_set_prop [simp]: "get_prop (set_prop v k x) k = x"
  by (simp add: set_prop_def update_conv')

lemma set_prop_twice [simp]: "set_prop (set_prop v k a) k b = set_prop v k b"
  by (simp add: set_prop_def)

lemma set_prop_object [simp]:
  "set_prop v k x \<noteq> Null" "set_prop v k x \<noteq> Undefined" "is_object (set_prop v k x)"
  by (simp_all add: set_prop_def)

lemma has_sink_cong:
  "handler q' = handler q \<Longrightarrow> webhookUrl q' = webhookUrl q \<Longrightarrow> has_sink q' = has_sink q"
  by (simp add: has_sink_def url_set_def)

lemma backoff_values:
  "backoff 0 = 100" "backoff 1 = 200" "backoff 2 = 400" "backoff 3 = 800" "backoff 4 = 1600"
  by (simp_all add: backoff_def)

text \<open>
  The retry rule in any state: a failure of an item whose counter is \<open>r\<close> starts one
  timer with the delay \<open>2 ^ r * 100\<close> for the item with the counter \<open>r + 1\<close> when
  \<open>0 \<le> r < 5\<close>, and only reports the item when \<open>r \<ge> 5\<close>.
\<close>

lemma retry_rule:
  "on_failure item (Num r) q =
     (if r < 5
      then log (SetTimeout (backoff r) (set_prop item ''_retries'' (Num (r + 1))))
             (q\<lparr>timers := timers q @ [(now q + backoff r, set_prop item ''_retries'' (Num (r + 1)))]\<rparr>)
      else log (MaxRetriesExceeded item) q)"
  "0 \<le> r \<Longrightarrow> backoff r = 2 ^ nat r * 100"
  by (simp_all add: on_failure_def MAX_RETRIES_def Let_def backoff_def)

text \<open>One failed attempt on a queue that holds just the item, below the ceiling.\<close>

lemma attempt_fails:
  assumes "has_sink q" "\<not> processing q" "inflight q = None"
    and "data q = [set_prop v ''_retries'' (Num r)]" "r < 5"
  shows "let q' = settle False (processQueue q) in
           data q' = [] \<and> \<not> processing q' \<and> inflight q' = None
         \<and> timers q' = timers q @ [(now q + backoff r, set_prop v ''_retries'' (Num (r + 1)))]
         \<and> now q' = now q \<and> discardedItems q' = discardedItems q
         \<and> handler q' = handler q \<and> webhookUrl q' = webhookUrl q
         \<and> attempts (trace q') = attempts (trace q) @ [(now q, set_prop v ''_retries'' (Num r))]
         \<and> timeouts (trace q') = timeouts (trace q) @ [(now q, backoff r)]"
proof (cases "handler q")
  case None
  then have "url_set q" using assms(1) by (simp add: has_sink_def)
  with None assms show ?thesis
    by (simp add: processQueue_def Let_def run_loop_Webhook settle_def on_failure_def
        MAX_RETRIES_def js_or_def run_loop_Nil)
next
  case (Some h)
  show ?thesis
  proof (cases "h (set_prop v ''_retries'' (Num r))")
    case Throws
    with Some assms show ?thesis
      by (simp add: processQueue_def Let_def run_loop_Throws settle_def on_failure_def
          MAX_RETRIES_def js_or_def run_loop_Nil)
  next
    case Returns
    with Some assms show ?thesis
      by (simp add: processQueue_def Let_def run_loop_Returns settle_def on_failure_def
          MAX_RETRIES_def js_or_def run_loop_Nil)
  qed
qed

text \<open>The failed attempt at the ceiling: the item is reported and gone.\<close>

lemma attempt_drops:
  assumes "has_sink q" "\<not> processing q" "inflight q = None"
    and "data q = [set_prop v ''_retries'' (Num r)]" "5 \<le> r"
  shows "let q' = settle False (processQueue q) in
           data q' = [] \<and> \<not> processing q' \<and> inflight q' = None
         \<and> timers q' = timers q
         \<and> now q' = now q \<and> discardedItems q' = discardedItems q
         \<and> handler q' = handler q \<and> webhookUrl q' = webhookUrl q
         \<and> attempts (trace q') = attempts (trace q) @ [(now q, set_prop v ''_retries'' (Num r))]
         \<and> timeouts (trace q') = timeouts (trace q)"
proof (cases "handler q")
  case None
  then have "url_set q" using assms(1) by (simp add: has_sink_def)
  with None assms show ?thesis
    by (simp add: processQueue_def Let_def run_loop_Webhook settle_def on_failure_def
        MAX_RETRIES_def js_or_def run_loop_Nil)
next
  case (Some h)
  show ?thesis
  proof (cases "h (set_prop v ''_retries'' (Num r))")
    case Throws
    with Some assms show ?thesis
      by (simp add: processQueue_def Let_def run_loop_Throws settle_def on_failure_def
          MAX_RETRIES_def js_or_def run_loop_Nil)
  next
    case Returns
    with Some assms show ?thesis
      by (simp add: processQueue_def Let_def run_loop_Returns settle_def on_failure_def
          MAX_RETRIES_def js_or_def run_loop_Nil)
  qed
qed

lemma fire_single:
  "timers q = [(due, item)] \<Longrightarrow>
   fire q = processQueue (q\<lparr>timers := [], now := max (now q) due, data := item # data q\<rparr>)"
  by (simp add: fire_def)

lemma retry_round:
  assumes "has_sink q" "\<not> processing q" "inflight q = None" "data q = []"
    and "timers q = [(due, set_prop v ''_retries'' (Num r))]" "now q \<le> due" "r < 5"
  shows "let q' = settle False (fire q) in
           data q' = [] \<and> \<not> processing q' \<and> inflight q' = None
         \<and> timers q' = [(due + backoff r, set_prop v ''_retries'' (Num (r + 1)))]
         \<and> now q' = due \<and> discardedItems q' = discardedItems q
         \<and> handler q' = handler q \<and> webhookUrl q' = webhookUrl q
         \<and> attempts (trace q') = attempts (trace q) @ [(due, set_prop v ''_retries'' (Num r))]
         \<and> timeouts (trace q') = timeouts (trace q) @ [(due, backoff r)]"
proof -
  let ?q0 = "q\<lparr>timers := [], now := max (now q) due,
                data := set_prop v ''_retries'' (Num r) # data q\<rparr>"
  have "has_sink ?q0" using assms(1) by (simp add: has_sink_cong [of ?q0 q])
  then show ?thesis
    using attempt_fails [of ?q0 v r] assms
    by (simp add: fire_single Let_def max_absorb2)
qed

lemma last_round:
  assumes "has_sink q" "\<not> processing q" "inflight q = None" "data q = []"
    and "timers q = [(due, set_prop v ''_retries'' (Num r))]" "now q \<le> due" "5 \<le> r"
  shows "let q' = settle False (fire q) in
           data q' = [] \<and> \<not> processing q' \<and> inflight q' = None
         \<and> timers q' = []
         \<and> now q' = due \<and> discardedItems q' = discardedItems q
         \<and> handler q' = handler q \<and> webhookUrl q' = webhookUrl q
         \<and> attempts (trace q') = attempts (trace q) @ [(due, set_prop v ''_retries'' (Num r))]
         \<and> timeouts (trace q') = timeouts (trace q)"
proof -
  let ?q0 = "q\<lparr>timers := [], now := max (now q) due,
                data := set_prop v ''_retries'' (Num r) # data q\<rparr>"
  have "has_sink ?q0" using assms(1) by (simp add: has_sink_cong [of ?q0 q])
  then show ?thesis
    using attempt_drops [of ?q0 v r] assms
    by (simp add: fire_single Let_def max_absorb2)
qed

lemma idle_stays:
  assumes "timers q = []" "inflight q = None" "list_all internal es"
  shows "data (run es q) = data q \<and> discardedItems (run es q) = discardedItems q
         \<and> attempts (trace (run es q)) = attempts (trace q)
         \<and> timers (run es q) = [] \<and> inflight (run es q) = None"
  using assms
proof (induction es arbitrary: q)
  case Nil
  then show ?case by simp
next
  case (Cons e es)
  have "data (step e q) = data q \<and> timers (step e q) = [] \<and> inflight (step e q) = None
        \<and> discardedItems (step e q) = discardedItems q
        \<and> attempts (trace (step e q)) = attempts (trace q)"
    using Cons.prems
    by (cases e) (simp_all add: settle_def fire_def tick_def listener_settle_def saveData_def
        split: option.splits)
  with Cons.IH [of "step e q"] Cons.prems show ?case by simp
qed

text \<open>
  The retry ceiling where the loop has the item. A queue with a sink is idle, with no
  timer pending, and its buffer holds one item as \<^verbatim>\<open>addItem\<close> accepted it.
  \<^verbatim>\<open>processQueue()\<close> is called and every delivery fails: the handler raises, or the
  awaited promise is rejected, or the webhook request fails; each retry timer fires
  when it is due. Then the loop delivers the item exactly six times, at the times \<open>t\<close>,
  \<open>t + 100\<close>, \<open>t + 300\<close>, \<open>t + 700\<close>, \<open>t + 1500\<close> and \<open>t + 3100\<close>, each time with \<^verbatim>\<open>_retries\<close>
  one higher, from 0 to 5; it starts five timers, with the delays 100, 200, 400, 800
  and 1600. After the sixth failure the buffer is empty, no timer is pending, the
  discard list is what it was, and whatever timers, settlements and ticks follow, the
  buffer and the discard list stay so and the loop delivers nothing more.
\<close>

theorem retry_ceiling:
  assumes "has_sink q" "\<not> processing q" "inflight q = None" "timers q = []"
    and "data q = [accepted v]"
  shows "let qf = run [Settle False, Fire, Settle False, Fire, Settle False, Fire,
                       Settle False, Fire, Settle False, Fire, Settle False] (processQueue q);
             t = now q
         in attempts (trace qf)
              = attempts (trace q) @
                [(t, set_prop v ''_retries'' (Num 0)), (t + 100, set_prop v ''_retries'' (Num 1)),
                 (t + 300, set_prop v ''_retries'' (Num 2)), (t + 700, set_prop v ''_retries'' (Num 3)),
                 (t + 1500, set_prop v ''_retries'' (Num 4)),
                 (t + 3100, set_prop v ''_retries'' (Num 5))]
          \<and> timeouts (trace qf)
              = timeouts (trace q) @
                [(t, 100), (t + 100, 200), (t + 300, 400), (t + 700, 800), (t + 1500, 1600)]
          \<and> data qf = [] \<and> timers qf = [] \<and> inflight qf = None \<and> \<not> processing qf
          \<and> discardedItems qf = discardedItems q
          \<and> (\<forall>es. list_all internal es \<longrightarrow>
                data (run es qf) = [] \<and> discardedItems (run es qf) = discardedItems q
                \<and> attempts (trace (run es qf)) = attempts (trace qf))"
proof -
  define q1 where "q1 = settle False (processQueue q)"
  define q2 where "q2 = settle False (fire q1)"
  define q3 where "q3 = settle False (fire q2)"
  define q4 where "q4 = settle False (fire q3)"
  define q5 where "q5 = settle False (fire q4)"
  define q6 where "q6 = settle False (fire q5)"
  have run: "run [Settle False, Fire, Settle False, Fire, Settle False, Fire,
                  Settle False, Fire, Settle False, Fire, Settle False] (processQueue q) = q6"
    by (simp add: q1_def q2_def q3_def q4_def q5_def q6_def)
  have s1: "data q1 = []" "\<not> processing q1" "inflight q1 = None"
    "timers q1 = [(now q + 100, set_prop v ''_retries'' (Num 1))]"
    "now q1 = now q" "discardedItems q1 = discardedItems q"
    "handler q1 = handler q" "webhookUrl q1 = webhookUrl q"
    "attempts (trace q1) = attempts (trace q) @ [(now q, set_prop v ''_retries'' (Num 0))]"
    "timeouts (trace q1) = timeouts (trace q) @ [(now q, 100)]"
    using attempt_fails [of q v 0] assms
    by (simp_all add: q1_def Let_def accepted_def backoff_values)
  have k1: "has_sink q1" using assms(1) s1 by (simp add: has_sink_cong [of q1 q])
  have s2: "data q2 = []" "\<not> processing q2" "inflight q2 = None"
    "timers q2 = [(now q + 300, set_prop v ''_retries'' (Num 2))]"
    "now q2 = now q + 100" "discardedItems q2 = discardedItems q"
    "handler q2 = handler q" "webhookUrl q2 = webhookUrl q"
    "attempts (trace q2) = attempts (trace q1) @ [(now q + 100, set_prop v ''_retries'' (Num 1))]"
    "timeouts (trace q2) = timeouts (trace q1) @ [(now q + 100, 200)]"
    using retry_round [of q1 "now q + 100" v 1] k1 s1
    by (simp_all add: q2_def Let_def backoff_values)
  have k2: "has_sink q2" using assms(1) s2 by (simp add: has_sink_cong [of q2 q])
  have s3: "data q3 = []" "\<not> processing q3" "inflight q3 = None"
    "timers q3 = [(now q + 700, set_prop v ''_retries'' (Num 3))]"
    "now q3 = now q + 300" "discardedItems q3 = discardedItems q"
    "handler q3 = handler q" "webhookUrl q3 = webhookUrl q"
    "attempts (trace q3) = attempts (trace q2) @ [(now q + 300, set_prop v ''_retries'' (Num 2))]"
    "timeouts (trace q3) = timeouts (trace q2) @ [(now q + 300, 400)]"
    using retry_round [of q2 "now q + 300" v 2] k2 s2
    by (simp_all add: q3_def Let_def backoff_values)
  have k3: "has_sink q3" using assms(1) s3 by (simp add: has_sink_cong [of q3 q])
  have s4: "data q4 = []" "\<not> processing q4" "inflight q4 = None"
    "timers q4 = [(now q + 1500, set_prop v ''_retries'' (Num 4))]"
    "now q4 = now q + 700" "discardedItems q4 = discardedItems q"
    "handler q4 = handler q" "webhookUrl q4 = webhookUrl q"
    "attempts (trace q4) = attempts (trace q3) @ [(now q + 700, set_prop v ''_retries'' (Num 3))]"
    "timeouts (trace q4) = timeouts (trace q3) @ [(now q + 700, 800)]"
    using retry_round [of q3 "now q + 700" v 3] k3 s3
    by (simp_all add: q4_def Let_def backoff_values)
  have k4: "has_sink q4" using assms(1) s4 by (simp add: has_sink_cong [of q4 q])
  have s5: "data q5 = []" "\<not> processing q5" "inflight q5 = None"
    "timers q5 = [(now q + 3100, set_prop v ''_retries'' (Num 5))]"
    "now q5 = now q + 1500" "discardedItems q5 = discardedItems q"
    "handler q5 = handler q" "webhookUrl q5 = webhookUrl q"
    "attempts (trace q5) = attempts (trace q4) @ [(now q + 1500, set_prop v ''_retries'' (Num 4))]"
    "timeouts (trace q5) = timeouts (trace q4) @ [(now q + 1500, 1600)]"
    using retry_round [of q4 "now q + 1500" v 4] k4 s4
    by (simp_all add: q5_def Let_def backoff_values)
  have k5: "has_sink q5" using assms(1) s5 by (simp add: has_sink_cong [of q5 q])
  have s6: "data q6 = []" "\<not> processing q6" "inflight q6 = None"
    "timers q6 = []" "discardedItems q6 = discardedItems q"
    "attempts (trace q6) = attempts (trace q5) @ [(now q + 3100, set_prop v ''_retries'' (Num 5))]"
    "timeouts (trace q6) = timeouts (trace q5)"
    using last_round [of q5 "now q + 3100" v 5] k5 s5
    by (simp_all add: q6_def Let_def)
  have never: "\<forall>es. list_all internal es \<longrightarrow>
                data (run es q6) = [] \<and> discardedItems (run es q6) = discardedItems q
                \<and> attempts (trace (run es q6)) = attempts (trace q6)"
    using idle_stays [of q6] s6 by simp
  show ?thesis
    unfolding Let_def run
    using s1(9,10) s2(9,10) s3(9,10) s4(9,10) s5(9,10) s6 never by simp
qed

theorem retry_ceiling_witness:
  "has_sink (with_webhook 0)
   \<and> (let qf = run [AddItem (Obj [(''id'', Num 1)]),
                    Settle False, Fire, Settle False, Fire, Settle False, Fire,
                    Settle False, Fire, Settle False, Fire, Settle False] (with_webhook 0)
      in attempts (trace qf)
           = [(0, Obj [(''id'', Num 1), (''_retries'', Num 0)]),
              (100, Obj [(''id'', Num 1), (''_retries'', Num 1)]),
              (300, Obj [(''id'', Num 1), (''_retries'', Num 2)]),
              (700, Obj [(''id'', Num 1), (''_retries'', Num 3)]),
              (1500, Obj [(''id'', Num 1), (''_retries'', Num 4)]),
              (3100, Obj [(''id'', Num 1), (''_retries'', Num 5)])]
         \<and> map snd (timeouts (trace qf)) = [100, 200, 400, 800, 1600]
         \<and> data qf = [] \<and> discardedItems qf = [] \<and> timers qf = [])"
proof -
  define q where "q = saveData (log (Emit ''itemAdded'' (accepted (Obj [(''id'', Num 1)])))
      ((with_webhook 0)\<lparr>data := [accepted (Obj [(''id'', Num 1)])]\<rparr>))"
  have add: "snd (addItem (Obj [(''id'', Num 1)]) (with_webhook 0)) = processQueue q"
    by (simp add: q_def addItem_def emit_itemAdded_def with_webhook_eq fresh_def accepted_def
        Let_def log_def)
  have q: "has_sink q" "\<not> processing q" "inflight q = None" "timers q = []"
    "data q = [accepted (Obj [(''id'', Num 1)])]" "now q = 0" "discardedItems q = []"
    "attempts (trace q) = []" "timeouts (trace q) = []"
    by (simp_all add: q_def with_webhook_eq fresh_def has_sink_def log_def url_set_def
        saveData_def serializable_def accepted_def set_prop_def)
  show ?thesis
    using retry_ceiling [OF q(1-5), of ] q(6-9) add
    by (simp add: Let_def set_prop_def with_webhook_eq has_sink_def url_set_def fresh_def)
qed


lemma addItem_throwing:
  "addItem (Obj ps) with_throwing_handler
   = (Reject HandlerFault,
      with_throwing_handler
        \<lparr>data := [accepted (Obj ps)],
         trace := [(0, Emit ''itemAdded'' (accepted (Obj ps))),
                   (0, HandlerCall Listener (accepted (Obj ps)))]\<rparr>)"
  by (simp add: with_throwing_handler_eq addItem_def emit_itemAdded_def fresh_def log_def
      accepted_def Let_def)

text \<open>
  C2 on the code. Once the processing loop has the item, the six deliveries, the five
  delays and the drop are as \<open>retry_ceiling\<close> gives them, for a webhook that fails and
  for a handler that raises or whose promise is rejected. But with a handler that
  raises, an item given to \<^verbatim>\<open>addItem\<close> does not reach the loop: the error leaves the
  \<^verbatim>\<open>itemAdded\<close> listener and \<^verbatim>\<open>addItem\<close> ends before \<^verbatim>\<open>processQueue()\<close> (the defect of C9).
  For every such item the loop delivers zero times, not six; no retry timer is started;
  and the item is not dropped but stays in the buffer, whatever timers, settlements and
  ticks follow.
\<close>

theorem thrown_item_is_never_delivered:
  "fst (addItem (Obj ps) with_throwing_handler) = Reject HandlerFault
   \<and> data (snd (addItem (Obj ps) with_throwing_handler)) = [accepted (Obj ps)]
   \<and> attempts (trace (snd (addItem (Obj ps) with_throwing_handler))) = []
   \<and> timeouts (trace (snd (addItem (Obj ps) with_throwing_handler))) = []
   \<and> timers (snd (addItem (Obj ps) with_throwing_handler)) = []
   \<and> \<not> processing (snd (addItem (Obj ps) with_throwing_handler))
   \<and> (\<forall>es. list_all internal es \<longrightarrow>
         data (run es (snd (addItem (Obj ps) with_throwing_handler))) = [accepted (Obj ps)]
         \<and> attempts (trace (run es (snd (addItem (Obj ps) with_throwing_handler)))) = []
         \<and> timers (run es (snd (addItem (Obj ps) with_throwing_handler))) = [])"
proof -
  let ?q = "snd (addItem (Obj ps) with_throwing_handler)"
  have q: "timers ?q = []" "inflight ?q = None" "data ?q = [accepted (Obj ps)]"
    "attempts (trace ?q) = []" "timeouts (trace ?q) = []" "\<not> processing ?q"
    "fst (addItem (Obj ps) with_throwing_handler) = Reject HandlerFault"
    unfolding addItem_throwing by (simp_all add: with_throwing_handler_eq fresh_def)
  have "\<forall>es. list_all internal es \<longrightarrow>
         data (run es ?q) = [accepted (Obj ps)] \<and> attempts (trace (run es ?q)) = []
         \<and> timers (run es ?q) = []"
    using idle_stays [of ?q] q by simp
  with q show ?thesis by simp
qed

theorem thrown_item_is_never_delivered_witness:
  "list_all internal [Fire, Settle False, Elapse 5000, Tick, Fire, ListenerSettle False]
   \<and> fst (addItem (Obj [(''id'', Num 1)]) with_throwing_handler) = Reject HandlerFault
   \<and> data (run [AddItem (Obj [(''id'', Num 1)]),
                 Fire, Settle False, Elapse 5000, Tick, Fire, ListenerSettle False]
            with_throwing_handler)
       = [Obj [(''id'', Num 1), (''_retries'', Num 0)]]
   \<and> attempts (trace (run [AddItem (Obj [(''id'', Num 1)]),
                 Fire, Settle False, Elapse 5000, Tick, Fire, ListenerSettle False]
            with_throwing_handler)) = []"
proof -
  let ?es = "[Fire, Settle False, Elapse 5000, Tick, Fire, ListenerSettle False]"
  let ?q = "snd (addItem (Obj [(''id'', Num 1)]) with_throwing_handler)"
  have i: "list_all internal ?es" by simp
  have r: "run (AddItem (Obj [(''id'', Num 1)]) # ?es) with_throwing_handler = run ?es ?q"
    by (simp only: run.simps step.simps)
  have "fst (addItem (Obj [(''id'', Num 1)]) with_throwing_handler) = Reject HandlerFault"
    "data (run ?es ?q) = [accepted (Obj [(''id'', Num 1)])]"
    "attempts (trace (run ?es ?q)) = []"
    using thrown_item_is_never_delivered [of "[(''id'', Num 1)]"] i by blast+
  then show ?thesis
    unfolding r using i by (simp add: accepted_def set_prop_def)
qed


section \<open>A retried item goes first\<close>

lemma attempted_simps [simp]:
  "attempted (log (HandlerCall Loop item) q) = attempted q @ [item]"
  "attempted (log (WebhookCall item body) q) = attempted q @ [item]"
  "attempted (log WebhookError q) = attempted q"
  "attempted (on_failure item r q) = attempted q"
  "attempted (q\<lparr>data := d\<rparr>) = attempted q"
  "attempted (q\<lparr>inflight := i\<rparr>) = attempted q"
  "attempted (q\<lparr>processing := b\<rparr>) = attempted q"
  "attempted (q\<lparr>timers := ts\<rparr>) = attempted q"
  "attempted (q\<lparr>now := t\<rparr>) = attempted q"
  by (simp_all add: attempted_def)

lemma has_sink_simps [simp]:
  "has_sink (log a q) = has_sink q" "has_sink (on_failure item r q) = has_sink q"
  "has_sink (q\<lparr>data := d\<rparr>) = has_sink q" "has_sink (q\<lparr>processing := b\<rparr>) = has_sink q"
  "has_sink (q\<lparr>inflight := i\<rparr>) = has_sink q" "has_sink (q\<lparr>timers := ts\<rparr>) = has_sink q"
  "has_sink (q\<lparr>now := t\<rparr>) = has_sink q"
  by (simp_all add: has_sink_def)

lemma has_sink_run_loop [simp]: "has_sink (run_loop q) = has_sink q"
  using run_loop_frame [of q] by (simp add: has_sink_def url_set_def)








lemma now_settle [simp]: "now (settle ok q) = now q"
proof (cases "inflight q")
  case None
  then show ?thesis by (simp add: settle_def)
next
  case (Some p)
  show ?thesis
  proof (cases p)
    case (AwaitHandler item retries)
    then show ?thesis
      using run_loop_frame [of "q\<lparr>inflight := None\<rparr>"]
        run_loop_frame [of "on_failure item retries (q\<lparr>inflight := None\<rparr>)"]
      by (simp add: settle_def Some Let_def)
  next
    case (AwaitWebhook item retries)
    then show ?thesis
      using run_loop_frame [of "q\<lparr>inflight := None\<rparr>"]
        run_loop_frame [of "on_failure item retries (log WebhookError (q\<lparr>inflight := None\<rparr>))"]
      by (simp add: settle_def Some Let_def)
  qed
qed

lemma now_settles [simp]: "now (run (map Settle oks) q) = now q"
  by (induction oks arbitrary: q) simp_all






section \<open>The handler is called by the listener and by the loop\<close>

text \<open>With a handler that returns, an accepted item reaches it twice.\<close>

lemma handler_called_twice:
  assumes "handler q = Some h" "listener q = Some h" "h (accepted (Obj ps)) = Returns"
    and "\<not> is_full q" "\<not> processing q" "data q = []" "disk_ok q"
  shows "trace (snd (addItem (Obj ps) q))
         = trace q @ [(now q, Emit ''itemAdded'' (accepted (Obj ps))),
                      (now q, HandlerCall Listener (accepted (Obj ps))),
                      (now q, HandlerCall Loop (accepted (Obj ps)))]"
  using assms
  by (simp add: addItem_def emit_itemAdded_def is_full_def accepted_def Let_def log_def
      saveData_def serializable_def processQueue_def set_prop_def run_loop_Returns)

text \<open>
  C9 on the code. With a handler that returns, an accepted item reaches the handler
  twice, from the listener and from the loop (\<open>handler_called_twice\<close>), and a rejected
  promise of the listener's call is only reported (\<open>listener_settle\<close>). With a handler
  that raises, the error leaves the listener: \<^verbatim>\<open>addItem\<close> ends with that error, after
  the item was put in the buffer and before \<^verbatim>\<open>saveData()\<close> and \<^verbatim>\<open>processQueue()\<close>. The
  handler was called once, the loop has delivered nothing, nothing was saved and no
  retry is scheduled.
\<close>

theorem listener_throw_escapes:
  "addItem (Obj [(''id'', Num 1)]) with_throwing_handler
     = (Reject HandlerFault,
        with_throwing_handler
          \<lparr>data := [Obj [(''id'', Num 1), (''_retries'', Num 0)]],
           trace := [(0, Emit ''itemAdded'' (Obj [(''id'', Num 1), (''_retries'', Num 0)])),
                     (0, HandlerCall Listener (Obj [(''id'', Num 1), (''_retries'', Num 0)]))]\<rparr>)
   \<and> attempts (trace (snd (addItem (Obj [(''id'', Num 1)]) with_throwing_handler))) = []
   \<and> disk (snd (addItem (Obj [(''id'', Num 1)]) with_throwing_handler)) = None
   \<and> timers (snd (addItem (Obj [(''id'', Num 1)]) with_throwing_handler)) = []"
  by (simp add: with_throwing_handler_eq addItem_def emit_itemAdded_def fresh_def log_def
      set_prop_def Let_def)


end
